theory Spec2Isabelle
  imports Main "HOL-Library.Multiset"
begin

section \<open>JavaScript values and strings\<close>

text \<open>
  Request fields are JavaScript strings that may be missing: \<open>None\<close> is
  \<^verbatim>\<open>undefined\<close>. The handlers test fields with \<^verbatim>\<open>!x\<close>, which is
  true of a missing field and of the empty string; \<open>falsy\<close> is that test and
  \<open>truthy\<close> is \<^verbatim>\<open>if (x)\<close>. A character is a code unit below U+0100
  (ASCII and Latin-1), so \<open>length\<close> is JavaScript's \<^verbatim>\<open>length\<close>;
  \<open>toLowerCase\<close> and \<open>trim\<close> are JavaScript's on these strings: the capital
  letters are A to Z and U+00C0 to U+00DE without the multiplication sign U+00D7, and
  the white space is U+0009 to U+000D, the space and the no-break space U+00A0.
\<close>

definition falsy :: "string option \<Rightarrow> bool" where
  "falsy v = (case v of None \<Rightarrow> True | Some s \<Rightarrow> s = [])"


definition str :: "string option \<Rightarrow> string" where
  "str v = (case v of None \<Rightarrow> [] | Some s \<Rightarrow> s)"

definition capitals :: string where
  "capitals = ''ABCDEFGHIJKLMNOPQRSTUVWXYZ'' @
     [CHR 0xC0, CHR 0xC1, CHR 0xC2, CHR 0xC3, CHR 0xC4, CHR 0xC5, CHR 0xC6, CHR 0xC7,
      CHR 0xC8, CHR 0xC9, CHR 0xCA, CHR 0xCB, CHR 0xCC, CHR 0xCD, CHR 0xCE, CHR 0xCF,
      CHR 0xD0, CHR 0xD1, CHR 0xD2, CHR 0xD3, CHR 0xD4, CHR 0xD5, CHR 0xD6, CHR 0xD8,
      CHR 0xD9, CHR 0xDA, CHR 0xDB, CHR 0xDC, CHR 0xDD, CHR 0xDE]"

definition smalls :: string where
  "smalls = ''abcdefghijklmnopqrstuvwxyz'' @
     [CHR 0xE0, CHR 0xE1, CHR 0xE2, CHR 0xE3, CHR 0xE4, CHR 0xE5, CHR 0xE6, CHR 0xE7,
      CHR 0xE8, CHR 0xE9, CHR 0xEA, CHR 0xEB, CHR 0xEC, CHR 0xED, CHR 0xEE, CHR 0xEF,
      CHR 0xF0, CHR 0xF1, CHR 0xF2, CHR 0xF3, CHR 0xF4, CHR 0xF5, CHR 0xF6, CHR 0xF8,
      CHR 0xF9, CHR 0xFA, CHR 0xFB, CHR 0xFC, CHR 0xFD, CHR 0xFE]"

definition lower_char :: "char \<Rightarrow> char" where
  "lower_char c = (case map_of (zip capitals smalls) c of None \<Rightarrow> c | Some l \<Rightarrow> l)"

definition toLowerCase :: "string \<Rightarrow> string" where
  "toLowerCase s = map lower_char s"

definition is_space :: "char \<Rightarrow> bool" where
  "is_space c = (c = CHR '' '' \<or> c = CHR 0x09 \<or> c = CHR 0x0A \<or> c = CHR 0x0B
     \<or> c = CHR 0x0C \<or> c = CHR 0x0D \<or> c = CHR 0xA0)"

definition trim :: "string \<Rightarrow> string" where
  "trim s = rev (dropWhile is_space (rev (dropWhile is_space s)))"

text \<open>\<^verbatim>\<open>s.includes(sub)\<close>: some position of \<open>s\<close> starts a copy of \<open>sub\<close>.\<close>

definition str_includes :: "string \<Rightarrow> string \<Rightarrow> bool" where
  "str_includes s sub = list_ex (\<lambda>i. take (length sub) (drop i s) = sub) [0..<Suc (length s)]"

section \<open>The persisted tables\<close>

text \<open>
  The schema is not part of the sources; the columns are the ones the statements name.
  Columns the handlers may write \<^verbatim>\<open>undefined\<close> into (sent as NULL) are options.
  Timestamps are natural numbers (milliseconds).
\<close>

record user_row =
  u_id :: nat
  u_name :: string
  u_email :: string
  u_phone :: string
  u_password :: string
  u_created_at :: nat
  u_updated_at :: "nat option"

record listing_row =
  l_id :: nat
  l_user_id :: nat
  l_title :: "string option"
  l_description :: "string option"
  l_category :: "string option"
  l_custom_category :: "string option"
  l_location :: "string option"
  l_county :: "string option"
  l_phone :: "string option"
  l_amenities :: "string list option"
  l_images :: "string list option"
  l_created_at :: nat
  l_updated_at :: nat

record db =
  users :: "user_row list"
  listings :: "listing_row list"
  user_seq :: nat
  listing_seq :: nat

datatype db_error = UniqueViolation string

text \<open>
  Modelled from the spec: the unique constraints on \<^verbatim>\<open>users.email\<close> and
  \<^verbatim>\<open>users.phone\<close> (section 6 of the specification), which make the INSERT of
  a second row with the same value fail with PostgreSQL code 23505 and the constraint's
  name; the new row's id comes from the table's sequence.
\<close>

definition insert_user ::
  "db \<Rightarrow> nat \<Rightarrow> string \<Rightarrow> string \<Rightarrow> string \<Rightarrow> string \<Rightarrow> nat option \<Rightarrow> db_error + (user_row \<times> db)" where
  "insert_user d now nm em ph pw upd =
     (if list_ex (\<lambda>u. u_email u = em) (users d) then Inl (UniqueViolation ''users_email_key'')
      else if list_ex (\<lambda>u. u_phone u = ph) (users d) then Inl (UniqueViolation ''users_phone_key'')
      else
        let row = \<lparr>u_id = user_seq d, u_name = nm, u_email = em, u_phone = ph,
                   u_password = pw, u_created_at = now, u_updated_at = upd\<rparr>
        in Inr (row, d\<lparr>users := users d @ [row], user_seq := Suc (user_seq d)\<rparr>))"

definition users_by_email :: "db \<Rightarrow> string \<Rightarrow> user_row list" where
  "users_by_email d em = filter (\<lambda>u. u_email u = em) (users d)"

section \<open>Registration and login\<close>

text \<open>
  The repository holds two versions of the authentication routes:
  \<^verbatim>\<open>src/routes/auth.js\<close> (handlers \<open>register\<close>, \<open>login\<close> below) and
  \<^verbatim>\<open>src/unnamed/part_001\<close> (handlers \<open>register_part_001\<close>,
  \<open>login_part_001\<close>). The libraries are parameters: \<open>bcrypt_hash rounds salt pw\<close>
  is bcrypt's hash for the given cost and random salt, \<open>bcrypt_compare pw h\<close> its
  comparison, \<open>jwt_sign payload secret expiry\<close> the token signature.
\<close>

record externals =
  bcrypt_hash :: "nat \<Rightarrow> string \<Rightarrow> string \<Rightarrow> string"
  bcrypt_compare :: "string \<Rightarrow> string \<Rightarrow> bool"
  jwt_sign :: "nat \<times> string \<Rightarrow> string \<Rightarrow> string \<Rightarrow> string"

record register_body =
  rb_name :: "string option"
  rb_email :: "string option"
  rb_phone :: "string option"
  rb_password :: "string option"

record login_body =
  lb_email :: "string option"
  lb_password :: "string option"

record public_user =
  pu_id :: nat
  pu_name :: string
  pu_email :: string
  pu_phone :: string

text \<open>
  \<open>ErrorResp status msg\<close> is \<^verbatim>\<open>res.status(status).json({ error: msg })\<close>;
  \<open>AuthResp status message user token\<close> is the success body of both handlers.
\<close>

datatype auth_response =
  ErrorResp nat string
| AuthResp nat string public_user string

text \<open>What the handlers write with \<^verbatim>\<open>console.log\<close> and \<^verbatim>\<open>console.error\<close>:
  one entry per call, one item per argument.\<close>

datatype log_item =
  LStr string
| LNat nat
| LBody register_body
| LError db_error

type_synonym log = "log_item list list"

definition public_of :: "user_row \<Rightarrow> public_user" where
  "public_of u = \<lparr>pu_id = u_id u, pu_name = u_name u, pu_email = u_email u, pu_phone = u_phone u\<rparr>"

text \<open>\<^verbatim>\<open>error.message\<close> of a unique violation, as PostgreSQL words it.\<close>

definition error_message :: "db_error \<Rightarrow> string" where
  "error_message e =
     (case e of UniqueViolation c \<Rightarrow>
        ''duplicate key value violates unique constraint '' @ [CHR 0x22] @ c @ [CHR 0x22])"

text \<open>The \<^verbatim>\<open>catch\<close> block of \<^verbatim>\<open>register\<close> in src/routes/auth.js: it
  logs the message and the error object, then answers by the constraint's name.\<close>

definition register_catch :: "db_error \<Rightarrow> auth_response \<times> log" where
  "register_catch e =
     (case e of UniqueViolation c \<Rightarrow>
        (if str_includes c ''email'' then ErrorResp 400 ''Email already registered''
         else if str_includes c ''phone'' then ErrorResp 400 ''Phone number already registered''
         else ErrorResp 500 ''Registration failed. Please try again later.'',
         [[LStr ''Registration Error:'', LStr (error_message e)], [LStr ''Full error:'', LError e]]))"

text \<open>\<^verbatim>\<open>POST /register\<close> of src/routes/auth.js. \<open>secret\<close> is
  \<^verbatim>\<open>process.env.JWT_SECRET\<close>, \<open>now\<close> the database clock, \<open>salt\<close> the
  randomness of \<^verbatim>\<open>bcrypt.genSalt(12)\<close>.\<close>

definition register ::
  "externals \<Rightarrow> string option \<Rightarrow> nat \<Rightarrow> string \<Rightarrow> db \<Rightarrow> register_body \<Rightarrow> auth_response \<times> db \<times> log" where
  "register X secret now salt d b =
     (if falsy (rb_name b) \<or> falsy (rb_email b) \<or> falsy (rb_phone b) \<or> falsy (rb_password b)
      then (ErrorResp 400 ''All fields are required'', d, [])
      else if length (str (rb_password b)) < 6
      then (ErrorResp 400 ''Password must be at least 6 characters'', d, [])
      else
        let trimmedEmail = trim (toLowerCase (str (rb_email b))) in
        if users_by_email d trimmedEmail \<noteq> []
        then (ErrorResp 400 ''Email already registered'', d, [])
        else
          let hashedPassword = bcrypt_hash X 12 salt (str (rb_password b)) in
          case insert_user d now (trim (str (rb_name b))) trimmedEmail (trim (str (rb_phone b)))
                 hashedPassword None of
            Inl e \<Rightarrow> (fst (register_catch e), d, snd (register_catch e))
          | Inr (user, d') \<Rightarrow>
              if falsy secret
              then (ErrorResp 500 ''Server configuration error'', d',
                    [[LStr ''JWT_SECRET is missing in .env file!'']])
              else (AuthResp 201 ''User registered successfully'' (public_of user)
                      (jwt_sign X (u_id user, u_email user) (str secret) ''7d''), d', []))"

text \<open>\<^verbatim>\<open>POST /login\<close> of src/routes/auth.js.\<close>

definition login ::
  "externals \<Rightarrow> string option \<Rightarrow> db \<Rightarrow> login_body \<Rightarrow> auth_response \<times> log" where
  "login X secret d b =
     (if falsy (lb_email b) \<or> falsy (lb_password b)
      then (ErrorResp 400 ''Email and password are required'', [])
      else
        let trimmedEmail = trim (toLowerCase (str (lb_email b))) in
        case users_by_email d trimmedEmail of
          [] \<Rightarrow> (ErrorResp 401 ''Invalid email or password'', [])
        | user # _ \<Rightarrow>
            if \<not> bcrypt_compare X (str (lb_password b)) (u_password user)
            then (ErrorResp 401 ''Invalid email or password'', [])
            else if falsy secret
            then (ErrorResp 500 ''Server configuration error'', [[LStr ''JWT_SECRET missing!'']])
            else (AuthResp 200 ''Login successful'' (public_of user)
                    (jwt_sign X (u_id user, u_email user) (str secret) ''7d''), []))"

text \<open>The \<^verbatim>\<open>catch\<close> block of \<^verbatim>\<open>register\<close> in src/unnamed/part_001.\<close>

definition register_catch_part_001 :: "db_error \<Rightarrow> auth_response \<times> log" where
  "register_catch_part_001 e =
     (case e of UniqueViolation c \<Rightarrow>
        (if str_includes c ''email'' then ErrorResp 400 ''Email already registered''
         else if str_includes c ''phone'' then ErrorResp 400 ''Phone number already in use''
         else if str_includes (error_message e) ''secret''
         then ErrorResp 500 ''Authentication system error''
         else ErrorResp 500 ''Registration failed. Please try again later.'',
         [[LStr ''REGISTRATION FAILED:'', LStr (error_message e)],
          [LStr ''Full error object:'', LError e]]))"

text \<open>\<^verbatim>\<open>POST /register\<close> of src/unnamed/part_001. Its first statement logs the
  request body; the password is trimmed before the length test and before hashing; the
  secret must have 20 characters.\<close>

definition register_part_001 ::
  "externals \<Rightarrow> string option \<Rightarrow> nat \<Rightarrow> string \<Rightarrow> db \<Rightarrow> register_body \<Rightarrow> auth_response \<times> db \<times> log" where
  "register_part_001 X secret now salt d b =
     (let attempt = [LStr ''Registration attempt:'', LBody b] in
      if falsy (rb_name b) \<or> falsy (rb_email b) \<or> falsy (rb_phone b) \<or> falsy (rb_password b)
      then (ErrorResp 400 ''All fields are required'', d, [attempt])
      else if length (trim (str (rb_password b))) < 6
      then (ErrorResp 400 ''Password must be at least 6 characters'', d, [attempt])
      else
        let cleanName = trim (str (rb_name b));
            cleanEmail = trim (toLowerCase (str (rb_email b)));
            cleanPhone = trim (str (rb_phone b)) in
        if users_by_email d cleanEmail \<noteq> []
        then (ErrorResp 400 ''Email already registered'', d,
              [attempt, [LStr ''Duplicate email attempt:'', LStr cleanEmail]])
        else
          let hashedPassword = bcrypt_hash X 12 salt (trim (str (rb_password b))) in
          case insert_user d now cleanName cleanEmail cleanPhone hashedPassword (Some now) of
            Inl e \<Rightarrow> (fst (register_catch_part_001 e), d, attempt # snd (register_catch_part_001 e))
          | Inr (user, d') \<Rightarrow>
              let created = [LStr ''New user created:'', LNat (u_id user), LStr (u_email user)] in
              if falsy secret \<or> length (str secret) < 20
              then (ErrorResp 500 ''Server configuration error. Contact admin.'', d',
                    [attempt, created, [LStr ''FATAL: JWT_SECRET is missing or too short!'']])
              else (AuthResp 201 ''Registration successful!'' (public_of user)
                      (jwt_sign X (u_id user, u_email user) (str secret) ''30d''), d',
                    [attempt, created]))"

text \<open>\<^verbatim>\<open>POST /login\<close> of src/unnamed/part_001.\<close>

definition login_part_001 ::
  "externals \<Rightarrow> string option \<Rightarrow> db \<Rightarrow> login_body \<Rightarrow> auth_response \<times> log" where
  "login_part_001 X secret d b =
     (if falsy (lb_email b) \<or> falsy (lb_password b)
      then (ErrorResp 400 ''Email and password are required'', [])
      else
        let cleanEmail = trim (toLowerCase (str (lb_email b))) in
        case users_by_email d cleanEmail of
          [] \<Rightarrow> (ErrorResp 401 ''Invalid email or password'', [])
        | user # _ \<Rightarrow>
            if \<not> bcrypt_compare X (str (lb_password b)) (u_password user)
            then (ErrorResp 401 ''Invalid email or password'', [])
            else if falsy secret
            then (ErrorResp 500 ''Server error'', [[LStr ''JWT_SECRET missing during login'']])
            else (AuthResp 200 ''Login successful'' (public_of user)
                    (jwt_sign X (u_id user, u_email user) (str secret) ''30d''), []))"

section \<open>Listings\<close>


record listing_fields =
  lf_title :: "string option"
  lf_description :: "string option"
  lf_category :: "string option"
  lf_custom_category :: "string option"
  lf_location :: "string option"
  lf_county :: "string option"
  lf_phone :: "string option"
  lf_amenities :: "string list option"
  lf_images :: "string list option"






text \<open>\<^verbatim>\<open>FROM listings l JOIN users u ON l.user_id = u.id\<close>\<close>

definition join_rows :: "listing_row list \<Rightarrow> user_row list \<Rightarrow> (listing_row \<times> user_row) list" where
  "join_rows ls us = concat (map (\<lambda>l. map (Pair l) (filter (\<lambda>u. l_user_id l = u_id u) us)) ls)"









text \<open>The UPDATE statement of \<^verbatim>\<open>PUT /:id\<close>, applied to one row.\<close>

definition set_fields :: "nat \<Rightarrow> listing_fields \<Rightarrow> listing_row \<Rightarrow> listing_row" where
  "set_fields now f l =
     l\<lparr>l_title := lf_title f, l_description := lf_description f, l_category := lf_category f,
       l_custom_category := lf_custom_category f, l_location := lf_location f,
       l_county := lf_county f, l_phone := lf_phone f, l_amenities := lf_amenities f,
       l_images := lf_images f, l_updated_at := now\<rparr>"



section \<open>Image upload and deletion\<close>

text \<open>
  src/routes/upload.js. A number inside a template literal is written in decimal.
\<close>

definition digit :: "nat \<Rightarrow> char" where
  "digit n = ''0123456789'' ! n"

fun decimal :: "nat \<Rightarrow> string" where
  "decimal n = (if n < 10 then [digit n] else decimal (n div 10) @ [digit (n mod 10)])"

declare decimal.simps [simp del]

definition startsWith :: "string \<Rightarrow> string \<Rightarrow> bool" where
  "startsWith s p = (take (length p) s = p)"

text \<open>\<^verbatim>\<open>s.split(sep)\<close>: the pieces of \<open>s\<close> between the occurrences of
  \<open>sep\<close>, found from the left; \<open>cur\<close> is the piece being read.\<close>

function split_from :: "string \<Rightarrow> string \<Rightarrow> string \<Rightarrow> string list" where
  "split_from sep cur [] = [cur]"
| "split_from sep cur (c # cs) =
     (if sep \<noteq> [] \<and> take (length sep) (c # cs) = sep
      then cur # split_from sep [] (drop (length sep) (c # cs))
      else split_from sep (cur @ [c]) cs)"
  by pat_completeness auto
termination
  by (relation "measure (\<lambda>(sep, cur, s). length s)") auto

definition split :: "string \<Rightarrow> string \<Rightarrow> string list" where
  "split s sep = (if sep = [] then map (\<lambda>c. [c]) s else split_from sep [] s)"

text \<open>
  Modelled from the spec: the object store (section 4.4 of the specification), an
  external service. An upload without overwrite permission fails when the key is taken;
  a delete succeeds whether or not the key exists; no call succeeds while the service
  is unreachable. \<open>requests\<close> records the calls the handlers issue. Each call
  returns the \<^verbatim>\<open>error\<close> of its result (\<open>None\<close> for success).
\<close>

record stored_object =
  so_body :: string
  so_type :: string

datatype storage_call =
  Upload string string string bool
| Remove "string list"

record storage =
  objects :: "string \<rightharpoonup> stored_object"
  online :: bool
  requests :: "storage_call list"

definition storage_upload ::
  "storage \<Rightarrow> string \<Rightarrow> string \<Rightarrow> string \<Rightarrow> bool \<Rightarrow> string option \<times> storage" where
  "storage_upload st path body ctype upsert =
     (let st1 = st\<lparr>requests := requests st @ [Upload path body ctype upsert]\<rparr> in
      if \<not> online st then (Some ''fetch failed'', st1)
      else if \<not> upsert \<and> objects st path \<noteq> None then (Some ''The resource already exists'', st1)
      else (None, st1\<lparr>objects := (objects st)(path \<mapsto> \<lparr>so_body = body, so_type = ctype\<rparr>)\<rparr>))"

definition storage_remove :: "storage \<Rightarrow> string list \<Rightarrow> string option \<times> storage" where
  "storage_remove st paths =
     (let st1 = st\<lparr>requests := requests st @ [Remove paths]\<rparr> in
      if \<not> online st then (Some ''fetch failed'', st1)
      else (None, st1\<lparr>objects := (\<lambda>k. if k \<in> set paths then None else objects st k)\<rparr>))"

text \<open>
  The multer configuration: files arrive in request order; a file beyond the fifth is
  refused with \<^verbatim>\<open>LIMIT_UNEXPECTED_FILE\<close>, then the file filter runs, then the
  file is read and refused with \<^verbatim>\<open>LIMIT_FILE_SIZE\<close> when it has more bytes
  than the limit. The first refusal ends the request with that error, before the
  handler; otherwise the handler gets the files as \<^verbatim>\<open>req.files\<close>.
\<close>

record upload_file =
  f_originalname :: string
  f_mimetype :: string
  f_buffer :: string

datatype multer_error =
  LIMIT_UNEXPECTED_FILE
| LIMIT_FILE_SIZE
| FileFilterError string

definition fileFilter :: "upload_file \<Rightarrow> string option" where
  "fileFilter file =
     (if startsWith (f_mimetype file) ''image/'' then None
      else Some ''Only image files are allowed'')"

fun multer_array ::
  "nat \<Rightarrow> nat \<Rightarrow> upload_file list \<Rightarrow> upload_file list \<Rightarrow> multer_error + upload_file list" where
  "multer_array maxCount fileSize accepted [] = Inr accepted"
| "multer_array maxCount fileSize accepted (file # rest) =
     (if maxCount \<le> length accepted then Inl LIMIT_UNEXPECTED_FILE
      else case fileFilter file of
        Some msg \<Rightarrow> Inl (FileFilterError msg)
      | None \<Rightarrow>
          if fileSize < length (f_buffer file) then Inl LIMIT_FILE_SIZE
          else multer_array maxCount fileSize (accepted @ [file]) rest)"

datatype upload_response =
  UploadError nat string
| UploadedUrls string "string list"
| UploadMessage string

text \<open>The loop of \<^verbatim>\<open>POST /\<close>. \<open>clock k\<close> and \<open>rnd k\<close> are
  \<^verbatim>\<open>Date.now()\<close> and the random token at the \<open>k\<close>-th file, \<open>publicUrl\<close>
  is the store's \<^verbatim>\<open>getPublicUrl\<close>. A failed upload throws out of the loop.\<close>

fun upload_each ::
  "(string \<Rightarrow> string) \<Rightarrow> nat \<Rightarrow> (nat \<Rightarrow> nat) \<Rightarrow> (nat \<Rightarrow> string) \<Rightarrow> nat \<Rightarrow> storage \<Rightarrow>
     upload_file list \<Rightarrow> string list \<Rightarrow> (string + string list) \<times> storage" where
  "upload_each publicUrl uid clock rnd k st [] uploadedUrls = (Inr uploadedUrls, st)"
| "upload_each publicUrl uid clock rnd k st (file # rest) uploadedUrls =
     (let fileName = decimal (clock k) @ ''-'' @ rnd k @ ''-'' @ f_originalname file;
          filePath = ''listings/'' @ decimal uid @ ''/'' @ fileName
      in case storage_upload st filePath (f_buffer file) (f_mimetype file) False of
           (Some e, st') \<Rightarrow> (Inl e, st')
         | (None, st') \<Rightarrow>
             upload_each publicUrl uid clock rnd (Suc k) st' rest (uploadedUrls @ [publicUrl filePath]))"

text \<open>The handler of \<^verbatim>\<open>POST /\<close>, given \<^verbatim>\<open>req.files\<close>.\<close>

definition upload_images ::
  "(string \<Rightarrow> string) \<Rightarrow> nat \<Rightarrow> (nat \<Rightarrow> nat) \<Rightarrow> (nat \<Rightarrow> string) \<Rightarrow> storage \<Rightarrow>
     upload_file list \<Rightarrow> upload_response \<times> storage" where
  "upload_images publicUrl uid clock rnd st files =
     (if length files = 0 then (UploadError 400 ''No files uploaded'', st)
      else if length files > 5 then (UploadError 400 ''Maximum 5 images allowed'', st)
      else case upload_each publicUrl uid clock rnd 0 st files [] of
             (Inl e, st') \<Rightarrow> (UploadError 500 ''Failed to upload images'', st')
           | (Inr urls, st') \<Rightarrow> (UploadedUrls ''Images uploaded successfully'' urls, st'))"

text \<open>The route \<^verbatim>\<open>POST /\<close>: \<^verbatim>\<open>upload.array('images', 5)\<close> with the
  5 MiB limit, then the handler.\<close>

definition post_upload ::
  "(string \<Rightarrow> string) \<Rightarrow> nat \<Rightarrow> (nat \<Rightarrow> nat) \<Rightarrow> (nat \<Rightarrow> string) \<Rightarrow> storage \<Rightarrow>
     upload_file list \<Rightarrow> (multer_error + upload_response) \<times> storage" where
  "post_upload publicUrl uid clock rnd st files =
     (case multer_array 5 (5 * 1024 * 1024) [] files of
        Inl e \<Rightarrow> (Inl e, st)
      | Inr accepted \<Rightarrow>
          (Inr (fst (upload_images publicUrl uid clock rnd st accepted)),
           snd (upload_images publicUrl uid clock rnd st accepted)))"

text \<open>\<^verbatim>\<open>DELETE /image\<close>. The handler never reads \<^verbatim>\<open>req.userId\<close>.\<close>

definition delete_image :: "storage \<Rightarrow> nat \<Rightarrow> string option \<Rightarrow> upload_response \<times> storage" where
  "delete_image st uid imageUrl =
     (if falsy imageUrl then (UploadError 400 ''Image URL required'', st)
      else
        let urlParts = split (str imageUrl) ''/house-images/'' in
        if length urlParts < 2 then (UploadError 400 ''Invalid image URL'', st)
        else
          let filePath = urlParts ! 1 in
          case storage_remove st [filePath] of
            (Some e, st') \<Rightarrow> (UploadError 500 ''Failed to delete image'', st')
          | (None, st') \<Rightarrow> (UploadMessage ''Image deleted successfully'', st'))"

section \<open>Vocabulary of the specification\<close>

text \<open>A response that carries a signed token.\<close>

fun signed :: "auth_response \<Rightarrow> bool" where
  "signed (AuthResp _ _ _ _) = True"
| "signed (ErrorResp _ _) = False"

text \<open>A log item that holds a request body.\<close>

fun is_body :: "log_item \<Rightarrow> bool" where
  "is_body (LBody b) = True"
| "is_body (LStr s) = False"
| "is_body (LNat n) = False"
| "is_body (LError e) = False"

text \<open>
  The key of a stored image in the words of the specification:
  \<^verbatim>\<open>listings/<ownerId>/<unixMillis>-<randomToken>-<originalFilename>\<close>;
  \<open>keys_from\<close> lists the keys of the files of one request, in order.
\<close>

definition storage_key :: "nat \<Rightarrow> nat \<Rightarrow> string \<Rightarrow> string \<Rightarrow> string" where
  "storage_key ownerId unixMillis randomToken originalFilename =
     ''listings/'' @ decimal ownerId @ ''/'' @ decimal unixMillis @ ''-'' @ randomToken @ ''-''
       @ originalFilename"

fun keys_from :: "nat \<Rightarrow> (nat \<Rightarrow> nat) \<Rightarrow> (nat \<Rightarrow> string) \<Rightarrow> nat \<Rightarrow> upload_file list \<Rightarrow> string list" where
  "keys_from uid clock rnd k [] = []"
| "keys_from uid clock rnd k (file # rest) =
     storage_key uid (clock k) (rnd k) (f_originalname file) # keys_from uid clock rnd (Suc k) rest"

text \<open>The upload the handler asks for (overwrite not permitted) and the object it
  stores.\<close>

definition upload_call :: "string \<Rightarrow> upload_file \<Rightarrow> storage_call" where
  "upload_call key file = Upload key (f_buffer file) (f_mimetype file) False"

definition stored :: "upload_file \<Rightarrow> stored_object" where
  "stored file = \<lparr>so_body = f_buffer file, so_type = f_mimetype file\<rparr>"

text \<open>
  The failure kinds of the specification. A request refused by multer fails with the
  kind of its error: the file count with \<open>InvalidInput\<close>, the file filter with
  \<open>InvalidFileType\<close>, the size limit with \<open>TooLarge\<close>; the handler's status
  400 is \<open>InvalidInput\<close> and its status 500 \<open>UpstreamFailure\<close>.
\<close>

datatype error_kind = InvalidInput | InvalidFileType | TooLarge | UpstreamFailure

fun upload_kind :: "multer_error + upload_response \<Rightarrow> error_kind option" where
  "upload_kind (Inl LIMIT_UNEXPECTED_FILE) = Some InvalidInput"
| "upload_kind (Inl LIMIT_FILE_SIZE) = Some TooLarge"
| "upload_kind (Inl (FileFilterError msg)) = Some InvalidFileType"
| "upload_kind (Inr (UploadError code msg)) = Some (if code = 400 then InvalidInput else UpstreamFailure)"
| "upload_kind (Inr (UploadedUrls msg urls)) = None"
| "upload_kind (Inr (UploadMessage msg)) = None"

definition is_image :: "upload_file \<Rightarrow> bool" where
  "is_image file = startsWith (f_mimetype file) ''image/''"

definition too_large :: "upload_file \<Rightarrow> bool" where
  "too_large file = (5 * 1024 * 1024 < length (f_buffer file))"








section \<open>Sample data\<close>

text \<open>Concrete libraries, rows and requests at which the theorems below are
  instantiated.\<close>

definition demo_externals :: externals where
  "demo_externals =
     \<lparr>bcrypt_hash = (\<lambda>rounds salt pw. salt @ pw),
      bcrypt_compare = (\<lambda>pw h. h = ''salt'' @ pw),
      jwt_sign = (\<lambda>payload secret expiry. secret @ expiry)\<rparr>"

definition demo_user :: user_row where
  "demo_user = \<lparr>u_id = 1, u_name = ''Ann'', u_email = ''ann@x.io'', u_phone = ''0700'',
     u_password = ''saltsecret1'', u_created_at = 5, u_updated_at = None\<rparr>"

definition empty_db :: db where
  "empty_db = \<lparr>users = [], listings = [], user_seq = 1, listing_seq = 1\<rparr>"

definition demo_db :: db where
  "demo_db = \<lparr>users = [demo_user], listings = [], user_seq = 2, listing_seq = 1\<rparr>"











definition padded_registration :: register_body where
  "padded_registration = \<lparr>rb_name = Some ''Bob'', rb_email = Some ''Bob@x.io'',
     rb_phone = Some ''0722'', rb_password = Some ''abc   ''\<rparr>"

definition bob_registration :: register_body where
  "bob_registration = \<lparr>rb_name = Some ''Bob'', rb_email = Some ''bob@x.io'',
     rb_phone = Some ''0722'', rb_password = Some ''secret1''\<rparr>"

definition login_good :: login_body where
  "login_good = \<lparr>lb_email = Some ''ann@x.io'', lb_password = Some ''secret1''\<rparr>"

definition other_url :: string where
  "other_url = ''https://s.co/object/public/house-images/listings/1/5-k3-a.png''"

definition twice_url :: string where
  "twice_url = ''https://s.co/public/house-images/listings/7/house-images/a.png''"

definition demo_storage :: storage where
  "demo_storage =
     \<lparr>objects = [''listings/1/5-k3-a.png'' \<mapsto> \<lparr>so_body = ''PNG'', so_type = ''image/png''\<rparr>],
      online = True, requests = []\<rparr>"

definition png :: "string \<Rightarrow> upload_file" where
  "png name = \<lparr>f_originalname = name, f_mimetype = ''image/png'', f_buffer = ''PNG''\<rparr>"

definition pdf :: upload_file where
  "pdf = \<lparr>f_originalname = ''a.pdf'', f_mimetype = ''application/pdf'', f_buffer = ''PDF''\<rparr>"

definition huge :: upload_file where
  "huge = \<lparr>f_originalname = ''h.png'', f_mimetype = ''image/png'',
     f_buffer = replicate (5 * 1024 * 1024 + 1) CHR ''x''\<rparr>"

definition demo_url :: "string \<Rightarrow> string" where
  "demo_url path = ''https://s.co/object/public/house-images/'' @ path"

definition demo_clock :: "nat \<Rightarrow> nat" where
  "demo_clock k = 170 + k"

definition demo_rnd :: "nat \<Rightarrow> string" where
  "demo_rnd k = ''k3''"



section \<open>Properties of login\<close>



section \<open>Properties of the listing handlers\<close>


lemma join_rows_Nil [simp]: "join_rows [] us = []"
  by (simp add: join_rows_def)




lemma set_fields_keeps [simp]:
  "l_id (set_fields now f l) = l_id l" "l_user_id (set_fields now f l) = l_user_id l"
  "l_created_at (set_fields now f l) = l_created_at l"
  by (simp_all add: set_fields_def)












section \<open>Properties of registration\<close>

text \<open>The second version of the handler tests the trimmed password, and answers 400
  with the table unchanged when fewer than 6 characters remain.\<close>

lemma register_part_001_rejects_short:
  assumes "length (trim (str (rb_password b))) < 6"
  shows "\<exists>msg. register_part_001 X secret now salt d b
     = (ErrorResp 400 msg, d, [[LStr ''Registration attempt:'', LBody b]])"
  using assms by (simp add: register_part_001_def Let_def)

text \<open>
  C10. The registration handler of src/routes/auth.js tests the length of the password
  as sent, not trimmed: the password \<^verbatim>\<open>abc\<close> followed by three spaces has
  3 characters after trimming and 6 before, passes the test, and a user row is created
  for it.
\<close>

theorem register_accepts_padded_password:
  "length (trim (str (rb_password padded_registration))) = 3
   \<and> users (fst (snd (register X secret now salt empty_db padded_registration)))
       = [\<lparr>u_id = 1, u_name = ''Bob'', u_email = ''bob@x.io'', u_phone = ''0722'',
           u_password = bcrypt_hash X 12 salt ''abc   '', u_created_at = now, u_updated_at = None\<rparr>]"
  by (simp add: register_def padded_registration_def empty_db_def falsy_def str_def
      users_by_email_def insert_user_def trim_def toLowerCase_def lower_char_def capitals_def smalls_def is_space_def Let_def)

text \<open>The registration handler of src/routes/auth.js logs no request body, and both
  handlers, when they answer with a token, have stored one new row whose password
  column is bcrypt's hash at cost 12 and return that row's id, name, email and
  phone.\<close>

lemma register_never_logs_body:
  "\<not> list_ex (list_ex is_body) (snd (snd (register X secret now salt d b)))"
  by (auto simp: register_def register_catch_def Let_def
      split: sum.splits prod.splits db_error.splits)

lemma register_stores_hash:
  assumes "fst (register X secret now salt d b) = AuthResp status msg pu token"
  shows "\<exists>row. users (fst (snd (register X secret now salt d b))) = users d @ [row]
     \<and> u_password row = bcrypt_hash X 12 salt (str (rb_password b)) \<and> pu = public_of row"
  using assms
  by (auto simp: register_def register_catch_def insert_user_def Let_def
      split: if_splits sum.splits prod.splits db_error.splits)

lemma register_part_001_stores_hash:
  assumes "fst (register_part_001 X secret now salt d b) = AuthResp status msg pu token"
  shows "\<exists>row. users (fst (snd (register_part_001 X secret now salt d b))) = users d @ [row]
     \<and> u_password row = bcrypt_hash X 12 salt (trim (str (rb_password b))) \<and> pu = public_of row"
  using assms
  by (auto simp: register_part_001_def register_catch_part_001_def insert_user_def Let_def
      split: if_splits sum.splits prod.splits db_error.splits)

text \<open>
  C5. The registration handler of src/unnamed/part_001 starts by logging the request
  body, whose password field is the plaintext password: for every request, the log it
  leaves holds that entry.
\<close>

theorem register_part_001_logs_password:
  "[LStr ''Registration attempt:'', LBody b] \<in> set (snd (snd (register_part_001 X secret now salt d b)))"
  by (auto simp: register_part_001_def Let_def split: sum.splits prod.splits)

text \<open>What holds of the signing secret: with no secret (missing or empty) no handler
  signs a token, and the second registration handler signs none under a secret of fewer
  than 20 characters.\<close>

lemma no_token_without_secret:
  assumes "falsy secret"
  shows "\<not> signed (fst (register X secret now salt d b))"
    and "\<not> signed (fst (login X secret d lb))"
    and "\<not> signed (fst (register_part_001 X secret now salt d b))"
    and "\<not> signed (fst (login_part_001 X secret d lb))"
  using assms
  by (auto simp: register_def login_def register_part_001_def login_part_001_def Let_def
      register_catch_def register_catch_part_001_def
      split: sum.splits prod.splits list.splits db_error.splits)

lemma register_part_001_needs_long_secret:
  assumes "length (str secret) < 20"
  shows "\<not> signed (fst (register_part_001 X secret now salt d b))"
  using assms
  by (auto simp: register_part_001_def Let_def register_catch_part_001_def
      split: sum.splits prod.splits db_error.splits)

text \<open>
  C2. Both login handlers, and the registration handler of src/routes/auth.js, test only
  that the secret is present: under the 8-character secret \<^verbatim>\<open>tooshort\<close> a
  login with the right password is answered 200, and a registration 201, with a token
  signed with that secret.
\<close>

theorem login_signs_with_short_secret:
  "length ''tooshort'' < 20
   \<and> login demo_externals (Some ''tooshort'') demo_db login_good
      = (AuthResp 200 ''Login successful''
           \<lparr>pu_id = 1, pu_name = ''Ann'', pu_email = ''ann@x.io'', pu_phone = ''0700''\<rparr>
           (jwt_sign demo_externals (1, ''ann@x.io'') ''tooshort'' ''7d''), [])
   \<and> login_part_001 demo_externals (Some ''tooshort'') demo_db login_good
      = (AuthResp 200 ''Login successful''
           \<lparr>pu_id = 1, pu_name = ''Ann'', pu_email = ''ann@x.io'', pu_phone = ''0700''\<rparr>
           (jwt_sign demo_externals (1, ''ann@x.io'') ''tooshort'' ''30d''), [])
   \<and> fst (register demo_externals (Some ''tooshort'') 9 ''salt'' empty_db bob_registration)
      = AuthResp 201 ''User registered successfully''
           \<lparr>pu_id = 1, pu_name = ''Bob'', pu_email = ''bob@x.io'', pu_phone = ''0722''\<rparr>
           (jwt_sign demo_externals (1, ''bob@x.io'') ''tooshort'' ''7d'')"
  by (simp add: login_def login_part_001_def register_def login_good_def bob_registration_def
      demo_db_def empty_db_def demo_user_def demo_externals_def falsy_def str_def
      users_by_email_def insert_user_def public_of_def Let_def
      trim_def toLowerCase_def lower_char_def capitals_def smalls_def is_space_def)

section \<open>Properties of image deletion\<close>

text \<open>What \<^verbatim>\<open>split\<close> returns: at least two pieces exactly when the separator
  occurs; the whole string when it does not; and, when it occurs, the text before its
  first occurrence and then the pieces of the rest.\<close>

lemma str_includes_Nil: "str_includes [] sub = (sub = [])"
  by (auto simp: str_includes_def)

lemma str_includes_iff:
  "str_includes s sub = (\<exists>i\<le>length s. take (length sub) (drop i s) = sub)"
proof -
  have "set [0..<Suc (length s)] = {i. i \<le> length s}" by auto
  then show ?thesis unfolding str_includes_def list_ex_iff by blast
qed

lemma str_includes_Cons:
  "str_includes (c # cs) sub = (take (length sub) (c # cs) = sub \<or> str_includes cs sub)"
proof
  assume "str_includes (c # cs) sub"
  then obtain i where i: "i \<le> Suc (length cs)" "take (length sub) (drop i (c # cs)) = sub"
    by (auto simp: str_includes_iff)
  show "take (length sub) (c # cs) = sub \<or> str_includes cs sub"
  proof (cases i)
    case 0
    with i show ?thesis by simp
  next
    case (Suc j)
    with i have "j \<le> length cs" "take (length sub) (drop j cs) = sub" by simp_all
    then show ?thesis by (auto simp: str_includes_iff)
  qed
next
  assume "take (length sub) (c # cs) = sub \<or> str_includes cs sub"
  then show "str_includes (c # cs) sub"
  proof
    assume "take (length sub) (c # cs) = sub"
    then have "take (length sub) (drop 0 (c # cs)) = sub" by simp
    then show ?thesis unfolding str_includes_iff by blast
  next
    assume "str_includes cs sub"
    then obtain j where "j \<le> length cs" "take (length sub) (drop j cs) = sub"
      by (auto simp: str_includes_iff)
    then have "Suc j \<le> length (c # cs)" "take (length sub) (drop (Suc j) (c # cs)) = sub"
      by simp_all
    then show ?thesis unfolding str_includes_iff by blast
  qed
qed

lemma split_from_not_Nil: "split_from sep cur s \<noteq> []"
  by (induction sep cur s rule: split_from.induct) auto

lemma split_from_length:
  "sep \<noteq> [] \<Longrightarrow> (2 \<le> length (split_from sep cur s)) = str_includes s sep"
proof (induction sep cur s rule: split_from.induct)
  case (1 sep cur)
  then show ?case by (simp add: str_includes_Nil)
next
  case (2 sep cur c cs)
  show ?case
  proof (cases "take (length sep) (c # cs) = sep")
    case True
    have "split_from sep [] (drop (length sep) (c # cs)) \<noteq> []" by (rule split_from_not_Nil)
    then have "1 \<le> length (split_from sep [] (drop (length sep) (c # cs)))"
      by (cases "split_from sep [] (drop (length sep) (c # cs))") auto
    with True 2(3) show ?thesis by (simp add: str_includes_Cons)
  next
    case False
    with 2(2) [OF _ 2(3)] 2(3) show ?thesis by (simp add: str_includes_Cons)
  qed
qed

lemma split_length: "sep \<noteq> [] \<Longrightarrow> (length (split s sep) < 2) = (\<not> str_includes s sep)"
  using split_from_length [of sep "[]" s] by (auto simp: split_def)


lemma split_from_none:
  "\<not> str_includes s sep \<Longrightarrow> split_from sep cur s = [cur @ s]"
  by (induction sep cur s rule: split_from.induct) (auto simp: str_includes_Cons)

lemma split_from_first:
  assumes "sep \<noteq> []" "take (length sep) rest = sep"
    and "\<forall>i<length a. take (length sep) (drop i (a @ rest)) \<noteq> sep"
  shows "split_from sep cur (a @ rest) = (cur @ a) # split_from sep [] (drop (length sep) rest)"
  using assms(3)
proof (induction a arbitrary: cur)
  case Nil
  from assms(1,2) obtain r rs where rest: "rest = r # rs" by (cases rest) auto
  with assms(1,2) show ?case by simp
next
  case (Cons x a)
  from Cons.prems have "take (length sep) (drop 0 ((x # a) @ rest)) \<noteq> sep" by blast
  then have no: "take (length sep) (x # a @ rest) \<noteq> sep" by simp
  have "\<forall>i<length a. take (length sep) (drop i (a @ rest)) \<noteq> sep"
  proof (intro allI impI)
    fix i assume "i < length a"
    then have "Suc i < length (x # a)" by simp
    with Cons.prems have "take (length sep) (drop (Suc i) ((x # a) @ rest)) \<noteq> sep" by blast
    then show "take (length sep) (drop i (a @ rest)) \<noteq> sep" by simp
  qed
  from Cons.IH [OF this, of "cur @ [x]"] no show ?case by simp
qed

lemma split_single:
  assumes "sep \<noteq> []" "\<not> str_includes b sep"
    and "\<forall>i<length a. take (length sep) (drop i (a @ sep @ b)) \<noteq> sep"
  shows "split (a @ sep @ b) sep = [a, b]"
  using split_from_first [of sep "sep @ b" a "[]"] split_from_none [of b sep "[]"] assms
  by (simp add: split_def)

text \<open>The request is refused with status 400 exactly when the URL is absent (missing
  or empty) or does not contain the marker; when the marker occurs once, the key sent to
  the store is the whole text after it.\<close>

lemma delete_image_invalid_iff:
  "(\<exists>msg. delete_image st uid imageUrl = (UploadError 400 msg, st))
     = (falsy imageUrl \<or> \<not> str_includes (str imageUrl) ''/house-images/'')"
proof (cases "falsy imageUrl")
  case True
  then show ?thesis by (simp add: delete_image_def)
next
  case False
  have "(length (split (str imageUrl) ''/house-images/'') < 2)
      = (\<not> str_includes (str imageUrl) ''/house-images/'')"
    by (rule split_length) simp
  with False show ?thesis
    by (auto simp: delete_image_def Let_def storage_remove_def split: prod.splits option.splits)
qed

lemma delete_image_single_marker:
  assumes "\<not> str_includes key ''/house-images/''"
    and "\<forall>i<length base. take (length ''/house-images/'') (drop i (base @ ''/house-images/'' @ key))
           \<noteq> ''/house-images/''"
  shows "requests (snd (delete_image st uid (Some (base @ ''/house-images/'' @ key))))
     = requests st @ [Remove [key]]"
proof -
  have "split (base @ ''/house-images/'' @ key) ''/house-images/'' = [base, key]"
    using assms by (intro split_single) simp_all
  then show ?thesis
    by (simp add: delete_image_def Let_def storage_remove_def str_def falsy_def)
qed

text \<open>
  C3. The delete handler gives every caller the same answer for the same request: the
  caller's identity is not read. For a URL that contains the marker, the store is sent
  one delete, of the key the URL names, and when the store is reachable the answer is
  the success message and the object under that key is gone, whoever uploaded it.
\<close>

theorem delete_image_ignores_caller:
  assumes "str_includes url ''/house-images/''"
  shows "(\<forall>body. delete_image st uid body = delete_image st uid' body)
     \<and> requests (snd (delete_image st uid (Some url)))
         = requests st @ [Remove [split url ''/house-images/'' ! 1]]
     \<and> (online st \<longrightarrow>
           fst (delete_image st uid (Some url)) = UploadMessage ''Image deleted successfully''
         \<and> objects (snd (delete_image st uid (Some url))) (split url ''/house-images/'' ! 1) = None)"
proof -
  have len: "\<not> length (split url ''/house-images/'') < 2"
    using assms split_length [of "''/house-images/''" url] by simp
  from assms have "url \<noteq> []" by (auto simp: str_includes_iff)
  then have nf: "\<not> falsy (Some url)" by (simp add: falsy_def)
  have a: "\<forall>body. delete_image st uid body = delete_image st uid' body"
    by (simp add: delete_image_def)
  have b: "requests (snd (delete_image st uid (Some url)))
         = requests st @ [Remove [split url ''/house-images/'' ! 1]]"
    using len nf by (simp add: delete_image_def Let_def storage_remove_def str_def)
  have c: "online st \<longrightarrow>
           fst (delete_image st uid (Some url)) = UploadMessage ''Image deleted successfully''
         \<and> objects (snd (delete_image st uid (Some url))) (split url ''/house-images/'' ! 1) = None"
    using len nf by (simp add: delete_image_def Let_def storage_remove_def str_def)
  from a b c show ?thesis by blast
qed

lemma split_other_url:
  "split other_url ''/house-images/'' = [''https://s.co/object/public'', ''listings/1/5-k3-a.png'']"
  unfolding other_url_def by code_simp

lemma split_twice_url:
  "split twice_url ''/house-images/'' = [''https://s.co/public'', ''listings/7'', ''a.png'']"
  unfolding twice_url_def by code_simp

theorem delete_image_ignores_caller_witness:
  "str_includes other_url ''/house-images/''
   \<and> objects demo_storage ''listings/1/5-k3-a.png'' = Some \<lparr>so_body = ''PNG'', so_type = ''image/png''\<rparr>
   \<and> delete_image demo_storage 2 (Some other_url) = delete_image demo_storage 1 (Some other_url)
   \<and> requests (snd (delete_image demo_storage 2 (Some other_url))) = [Remove [''listings/1/5-k3-a.png'']]
   \<and> fst (delete_image demo_storage 2 (Some other_url)) = UploadMessage ''Image deleted successfully''
   \<and> objects (snd (delete_image demo_storage 2 (Some other_url))) ''listings/1/5-k3-a.png'' = None"
proof -
  have h: "str_includes other_url ''/house-images/''"
    unfolding other_url_def by code_simp
  have o: "objects demo_storage ''listings/1/5-k3-a.png'' = Some \<lparr>so_body = ''PNG'', so_type = ''image/png''\<rparr>"
      "online demo_storage" "requests demo_storage = []"
    by (simp_all add: demo_storage_def)
  note t = delete_image_ignores_caller [OF h, of demo_storage 2 1]
  note t1 = t [THEN conjunct1, THEN spec, of "Some other_url"]
  note t2 = t [THEN conjunct2, THEN conjunct1]
  note t3 = t [THEN conjunct2, THEN conjunct2, THEN mp, OF o(2)]
  from t1 t2 t3 h o show ?thesis by (simp add: split_other_url)
qed

text \<open>
  C9. For a URL in which the marker occurs twice, the key sent to the store is the text
  between the first and the second occurrence, not the whole text after the first:
  \<^verbatim>\<open>listings/7\<close> instead of \<^verbatim>\<open>listings/7/house-images/a.png\<close>.
\<close>

theorem delete_image_second_marker:
  "twice_url = ''https://s.co/public'' @ ''/house-images/'' @ ''listings/7/house-images/a.png''
   \<and> requests (snd (delete_image demo_storage uid (Some twice_url))) = [Remove [''listings/7'']]
   \<and> fst (delete_image demo_storage uid (Some twice_url)) = UploadMessage ''Image deleted successfully''"
  by (simp add: delete_image_def split_twice_url falsy_def str_def storage_remove_def demo_storage_def Let_def)
     (simp add: twice_url_def)

section \<open>Properties of image upload\<close>

text \<open>What multer lets through and what it refuses.\<close>

lemma length_keys_from [simp]: "length (keys_from uid clock rnd k files) = length files"
  by (induction files arbitrary: k) auto

lemma multer_array_Inr:
  "multer_array m lim acc files = Inr r \<Longrightarrow>
     r = acc @ files \<and> (files \<noteq> [] \<longrightarrow> length r \<le> m)
     \<and> list_all is_image files \<and> list_all (\<lambda>f. \<not> lim < length (f_buffer f)) files"
proof (induction files arbitrary: acc)
  case Nil
  then show ?case by simp
next
  case (Cons f0 rest)
  from Cons.prems have a: "\<not> m \<le> length acc" "fileFilter f0 = None" "\<not> lim < length (f_buffer f0)"
      and r: "multer_array m lim (acc @ [f0]) rest = Inr r"
    by (auto split: if_splits option.splits)
  from Cons.IH [OF r] a show ?case
    by (cases rest) (auto simp: is_image_def fileFilter_def split: if_splits)
qed

lemma multer_array_ok:
  "length acc + length files \<le> m \<Longrightarrow> list_all is_image files \<Longrightarrow>
     list_all (\<lambda>f. \<not> lim < length (f_buffer f)) files \<Longrightarrow>
     multer_array m lim acc files = Inr (acc @ files)"
  by (induction files arbitrary: acc) (auto simp: is_image_def fileFilter_def)

lemma multer_array_Inl:
  "multer_array m lim acc files = Inl e \<Longrightarrow>
     (e = LIMIT_UNEXPECTED_FILE \<longrightarrow> m < length acc + length files)
     \<and> (e = LIMIT_FILE_SIZE \<longrightarrow> list_ex (\<lambda>f. lim < length (f_buffer f)) files)
     \<and> (\<forall>msg. e = FileFilterError msg \<longrightarrow> list_ex (\<lambda>f. \<not> is_image f) files)"
proof (induction files arbitrary: acc)
  case Nil
  then show ?case by simp
next
  case (Cons f0 rest)
  show ?case
  proof (cases "m \<le> length acc")
    case True
    with Cons.prems show ?thesis by auto
  next
    case False
    show ?thesis
    proof (cases "fileFilter f0")
      case (Some msg)
      with False Cons.prems show ?thesis
        by (auto simp: is_image_def fileFilter_def split: if_splits)
    next
      case None
      show ?thesis
      proof (cases "lim < length (f_buffer f0)")
        case True
        with None False Cons.prems show ?thesis by auto
      next
        case big: False
        with None False Cons.prems have "multer_array m lim (acc @ [f0]) rest = Inl e" by simp
        from Cons.IH [OF this] show ?thesis by auto
      qed
    qed
  qed
qed


lemma storage_upload_fresh:
  assumes "online st" "objects st key = None"
  shows "storage_upload st key body ctype False =
     (None, st\<lparr>requests := requests st @ [Upload key body ctype False],
               objects := (objects st)(key \<mapsto> \<lparr>so_body = body, so_type = ctype\<rparr>)\<rparr>)"
  using assms by (simp add: storage_upload_def Let_def)

lemma upload_each_ok:
  assumes "online st"
    and "distinct (keys_from uid clock rnd k files)"
    and "\<forall>key\<in>set (keys_from uid clock rnd k files). objects st key = None"
  shows "\<exists>st'. upload_each publicUrl uid clock rnd k st files acc
            = (Inr (acc @ map publicUrl (keys_from uid clock rnd k files)), st')
       \<and> online st'
       \<and> requests st' = requests st @ map2 upload_call (keys_from uid clock rnd k files) files
       \<and> (\<forall>key. key \<notin> set (keys_from uid clock rnd k files) \<longrightarrow> objects st' key = objects st key)
       \<and> (\<forall>i<length files. objects st' (keys_from uid clock rnd k files ! i) = Some (stored (files ! i)))"
  using assms
proof (induction files arbitrary: k st acc)
  case Nil
  then show ?case by simp
next
  case (Cons f0 rest)
  let ?key = "storage_key uid (clock k) (rnd k) (f_originalname f0)"
  let ?keys = "keys_from uid clock rnd (Suc k) rest"
  let ?st1 = "st\<lparr>requests := requests st @ [Upload ?key (f_buffer f0) (f_mimetype f0) False],
               objects := (objects st)(?key \<mapsto> \<lparr>so_body = f_buffer f0, so_type = f_mimetype f0\<rparr>)\<rparr>"
  from Cons.prems have fresh: "objects st ?key = None" and notin: "?key \<notin> set ?keys"
      and dist: "distinct ?keys" and rest_fresh: "\<forall>key\<in>set ?keys. objects st key = None"
    by simp_all
  have up: "storage_upload st ?key (f_buffer f0) (f_mimetype f0) False = (None, ?st1)"
    using Cons.prems(1) fresh by (rule storage_upload_fresh)
  have on1: "online ?st1" using Cons.prems(1) by simp
  have fresh1: "\<forall>key\<in>set ?keys. objects ?st1 key = None"
    using rest_fresh notin by auto
  from Cons.IH [OF on1 dist fresh1, of "acc @ [publicUrl ?key]"]
  obtain st' where st': "upload_each publicUrl uid clock rnd (Suc k) ?st1 rest (acc @ [publicUrl ?key])
        = (Inr ((acc @ [publicUrl ?key]) @ map publicUrl ?keys), st')"
      and on': "online st'"
      and req': "requests st' = requests ?st1 @ map2 upload_call ?keys rest"
      and out': "\<forall>key. key \<notin> set ?keys \<longrightarrow> objects st' key = objects ?st1 key"
      and in': "\<forall>i<length rest. objects st' (?keys ! i) = Some (stored (rest ! i))"
    by blast
  have step: "upload_each publicUrl uid clock rnd k st (f0 # rest) acc
      = upload_each publicUrl uid clock rnd (Suc k) ?st1 rest (acc @ [publicUrl ?key])"
    using up by (simp add: storage_key_def Let_def)
  have a: "upload_each publicUrl uid clock rnd k st (f0 # rest) acc
      = (Inr (acc @ map publicUrl (keys_from uid clock rnd k (f0 # rest))), st')"
    using step st' by simp
  have b: "requests st' = requests st @ map2 upload_call (keys_from uid clock rnd k (f0 # rest)) (f0 # rest)"
    using req' by (simp add: upload_call_def)
  have c: "\<forall>key. key \<notin> set (keys_from uid clock rnd k (f0 # rest)) \<longrightarrow> objects st' key = objects st key"
    using out' by simp
  have d: "\<forall>i<length (f0 # rest). objects st' (keys_from uid clock rnd k (f0 # rest) ! i)
      = Some (stored ((f0 # rest) ! i))"
  proof (intro allI impI)
    fix i assume i: "i < length (f0 # rest)"
    show "objects st' (keys_from uid clock rnd k (f0 # rest) ! i) = Some (stored ((f0 # rest) ! i))"
    proof (cases i)
      case 0
      with out' notin show ?thesis by (simp add: stored_def)
    next
      case (Suc j)
      with i in' show ?thesis by simp
    qed
  qed
  from a on' b c d show ?case by blast
qed

lemma upload_each_requests:
  "\<exists>new. requests (snd (upload_each publicUrl uid clock rnd k st files acc)) = requests st @ new
     \<and> list_all (\<lambda>c. case c of Upload key body ctype upsert \<Rightarrow> upsert = False | Remove keys \<Rightarrow> False) new"
proof (induction files arbitrary: k st acc)
  case Nil
  then show ?case by simp
next
  case (Cons f0 rest)
  let ?key = "''listings/'' @ decimal uid @ ''/'' @ decimal (clock k) @ ''-'' @ rnd k @ ''-'' @ f_originalname f0"
  obtain e st1 where up: "storage_upload st ?key (f_buffer f0) (f_mimetype f0) False = (e, st1)"
    by (cases "storage_upload st ?key (f_buffer f0) (f_mimetype f0) False")
  then have r1: "requests st1 = requests st @ [Upload ?key (f_buffer f0) (f_mimetype f0) False]"
    by (auto simp: storage_upload_def Let_def split: if_splits)
  have step: "e = None \<Longrightarrow> upload_each publicUrl uid clock rnd k st (f0 # rest) acc
      = upload_each publicUrl uid clock rnd (Suc k) st1 rest (acc @ [publicUrl ?key])"
    using up by (simp add: Let_def)
  have stop: "e \<noteq> None \<Longrightarrow> snd (upload_each publicUrl uid clock rnd k st (f0 # rest) acc) = st1"
    using up by (auto simp: Let_def)
  show ?case
  proof (cases e)
    case (Some msg)
    then have "requests (snd (upload_each publicUrl uid clock rnd k st (f0 # rest) acc))
        = requests st @ [Upload ?key (f_buffer f0) (f_mimetype f0) False]"
      using stop r1 by simp
    then show ?thesis
      by (intro exI [where x = "[Upload ?key (f_buffer f0) (f_mimetype f0) False]"]) simp
  next
    case None
    from Cons.IH [of "Suc k" st1 "acc @ [publicUrl ?key]"] obtain new where
      new: "requests (snd (upload_each publicUrl uid clock rnd (Suc k) st1 rest (acc @ [publicUrl ?key])))
         = requests st1 @ new"
      "list_all (\<lambda>c. case c of Upload key body ctype upsert \<Rightarrow> upsert = False | Remove keys \<Rightarrow> False) new"
      by blast
    have "requests (snd (upload_each publicUrl uid clock rnd k st (f0 # rest) acc))
        = requests st @ Upload ?key (f_buffer f0) (f_mimetype f0) False # new"
      unfolding step [OF None] new(1) r1 by simp
    with new(2) show ?thesis
      by (intro exI [where x = "Upload ?key (f_buffer f0) (f_mimetype f0) False # new"]) simp
  qed
qed


lemma post_upload_refused:
  assumes "multer_array 5 (5 * 1024 * 1024) [] files = Inl e"
  shows "post_upload publicUrl uid clock rnd st files = (Inl e, st)"
    and "e = LIMIT_UNEXPECTED_FILE \<longrightarrow> 5 < length files"
    and "e = LIMIT_FILE_SIZE \<longrightarrow> list_ex too_large files"
    and "\<forall>msg. e = FileFilterError msg \<longrightarrow> list_ex (\<lambda>f. \<not> is_image f) files"
  using assms multer_array_Inl [OF assms]
  by (simp_all add: post_upload_def too_large_def [abs_def])

lemma post_upload_passed:
  assumes "multer_array 5 (5 * 1024 * 1024) [] files = Inr r"
  shows "post_upload publicUrl uid clock rnd st files =
           (Inr (fst (upload_images publicUrl uid clock rnd st files)),
            snd (upload_images publicUrl uid clock rnd st files))"
    and "length files \<le> 5"
    and "\<not> list_ex too_large files"
    and "\<not> list_ex (\<lambda>f. \<not> is_image f) files"
  using assms multer_array_Inr [OF assms]
  by (auto simp: post_upload_def too_large_def [abs_def] list_ex_iff list_all_iff)

text \<open>
  C8. With \<open>A\<close>: no file or more than 5 files, \<open>B\<close>: some file whose content
  type does not start with \<^verbatim>\<open>image/\<close>, \<open>C\<close>: some file of more than
  5 MiB. An upload request that fails with \<open>InvalidInput\<close> satisfies \<open>A\<close>, one
  that fails with \<open>InvalidFileType\<close> satisfies \<open>B\<close>, one that fails with
  \<open>TooLarge\<close> satisfies \<open>C\<close>; a request that satisfies one of them fails with
  one of these kinds, so with a kind whose condition it satisfies, and stores nothing;
  when it satisfies only one, it fails with the kind of that one. A request that satisfies none of them, while the store is reachable
  and the keys are new and different, is answered with one public URL per file in the
  order of the files, each the URL of the key
  \<^verbatim>\<open>listings/<ownerId>/<unixMillis>-<randomToken>-<originalFilename>\<close> under
  which the file is then stored. Every call the request makes to the store is an upload
  without overwrite permission.
\<close>

theorem post_upload_contract:
  fixes files :: "upload_file list" and st :: storage and publicUrl :: "string \<Rightarrow> string"
    and uid :: nat and clock :: "nat \<Rightarrow> nat" and rnd :: "nat \<Rightarrow> string"
  defines "n \<equiv> length files"
  defines "A \<equiv> n = 0 \<or> 5 < n"
  defines "B \<equiv> list_ex (\<lambda>f. \<not> is_image f) files"
  defines "C \<equiv> list_ex too_large files"
  defines "out \<equiv> post_upload publicUrl uid clock rnd st files"
  defines "keys \<equiv> keys_from uid clock rnd 0 files"
  shows "(upload_kind (fst out) = Some InvalidInput \<longrightarrow> A)
    \<and> (upload_kind (fst out) = Some InvalidFileType \<longrightarrow> B)
    \<and> (upload_kind (fst out) = Some TooLarge \<longrightarrow> C)
    \<and> (A \<or> B \<or> C \<longrightarrow>
          upload_kind (fst out) \<in> {Some InvalidInput, Some InvalidFileType, Some TooLarge}
        \<and> snd out = st)
    \<and> (A \<and> \<not> B \<and> \<not> C \<longrightarrow> upload_kind (fst out) = Some InvalidInput)
    \<and> (B \<and> \<not> A \<and> \<not> C \<longrightarrow> upload_kind (fst out) = Some InvalidFileType)
    \<and> (C \<and> \<not> A \<and> \<not> B \<longrightarrow> upload_kind (fst out) = Some TooLarge)
    \<and> (\<not> A \<and> \<not> B \<and> \<not> C \<and> online st \<and> distinct keys \<and> (\<forall>key\<in>set keys. objects st key = None) \<longrightarrow>
          fst out = Inr (UploadedUrls ''Images uploaded successfully'' (map publicUrl keys))
        \<and> length (map publicUrl keys) = n
        \<and> requests (snd out) = requests st @ map2 upload_call keys files
        \<and> (\<forall>i<n. objects (snd out) (keys ! i) = Some (stored (files ! i))))
    \<and> (\<exists>new. requests (snd out) = requests st @ new
          \<and> list_all (\<lambda>c. case c of Upload key body ctype upsert \<Rightarrow> upsert = False
                             | Remove ks \<Rightarrow> False) new)"
proof -
  define T where "T \<longleftrightarrow> (\<exists>new. requests (snd out) = requests st @ new
          \<and> list_all (\<lambda>c. case c of Upload key body ctype upsert \<Rightarrow> upsert = False
                             | Remove ks \<Rightarrow> False) new)"
  define S where "S \<longleftrightarrow> fst out = Inr (UploadedUrls ''Images uploaded successfully'' (map publicUrl keys))
        \<and> length (map publicUrl keys) = n
        \<and> requests (snd out) = requests st @ map2 upload_call keys files
        \<and> (\<forall>i<n. objects (snd out) (keys ! i) = Some (stored (files ! i)))"
  define H where "H \<longleftrightarrow> online st \<and> distinct keys \<and> (\<forall>key\<in>set keys. objects st key = None)"
  define K where "K = upload_kind (fst out)"
  have goal: "(K = Some InvalidInput \<longrightarrow> A)
    \<and> (K = Some InvalidFileType \<longrightarrow> B)
    \<and> (K = Some TooLarge \<longrightarrow> C)
    \<and> (A \<or> B \<or> C \<longrightarrow> (K = Some InvalidInput \<or> K = Some InvalidFileType \<or> K = Some TooLarge)
        \<and> snd out = st)
    \<and> (A \<and> \<not> B \<and> \<not> C \<longrightarrow> K = Some InvalidInput)
    \<and> (B \<and> \<not> A \<and> \<not> C \<longrightarrow> K = Some InvalidFileType)
    \<and> (C \<and> \<not> A \<and> \<not> B \<longrightarrow> K = Some TooLarge)
    \<and> (\<not> A \<and> \<not> B \<and> \<not> C \<and> H \<longrightarrow> S)
    \<and> T"
  proof (cases "multer_array 5 (5 * 1024 * 1024) [] files")
  case (Inl e)
  note r = post_upload_refused [OF Inl]
  have o: "out = (Inl e, st)" unfolding out_def by (rule r(1))
  have ok: "\<not> (\<not> A \<and> \<not> B \<and> \<not> C)"
  proof
    assume "\<not> A \<and> \<not> B \<and> \<not> C"
    then have "length [] + length files \<le> 5" "list_all is_image files"
        "list_all (\<lambda>f. \<not> 5 * 1024 * 1024 < length (f_buffer f)) files"
      by (auto simp: A_def B_def C_def n_def list_ex_iff list_all_iff too_large_def)
    from multer_array_ok [OF this] Inl show False by simp
  qed
  have k: "(K = Some InvalidInput \<longrightarrow> A)
    \<and> (K = Some InvalidFileType \<longrightarrow> B)
    \<and> (K = Some TooLarge \<longrightarrow> C)
    \<and> (K = Some InvalidInput \<or> K = Some InvalidFileType \<or> K = Some TooLarge)"
    using r(2,3,4) unfolding K_def o A_def B_def C_def n_def by (cases e) auto
  have t: T
    unfolding T_def o by (intro exI [where x = "[]"]) simp
  have so: "snd out = st" unfolding o by simp
  from k ok t so show ?thesis by blast
next
  case (Inr r)
  note p = post_upload_passed [OF Inr]
  have nb: "\<not> B" "\<not> C" "n \<le> 5"
    using p(2,3,4) by (simp_all add: B_def C_def n_def)
  show ?thesis
  proof (cases "n = 0")
    case True
    then have o: "out = (Inr (UploadError 400 ''No files uploaded''), st)"
      unfolding out_def p(1) by (simp add: upload_images_def n_def)
    have a: A using True by (simp add: A_def)
    have t: T
      unfolding T_def o by (intro exI [where x = "[]"]) simp
    have k: "K = Some InvalidInput" unfolding K_def o by simp
    have so: "snd out = st" unfolding o by simp
    from a nb(1,2) t k so show ?thesis by blast
  next
    case False
    with nb have na: "\<not> A" by (simp add: A_def)
    let ?loop = "upload_each publicUrl uid clock rnd 0 st files []"
    have o: "out = (case ?loop of
                 (Inl e, st') \<Rightarrow> (Inr (UploadError 500 ''Failed to upload images''), st')
               | (Inr urls, st') \<Rightarrow> (Inr (UploadedUrls ''Images uploaded successfully'' urls), st'))"
      unfolding out_def p(1) using False nb(3)
      by (simp add: upload_images_def n_def split: prod.splits sum.splits)
    have so: "snd out = snd ?loop"
      unfolding o by (simp split: prod.splits sum.splits)
    have k: "K \<noteq> Some InvalidInput \<and> K \<noteq> Some InvalidFileType \<and> K \<noteq> Some TooLarge"
      unfolding K_def o by (simp split: prod.splits sum.splits)
    have t: T
      unfolding T_def so by (rule upload_each_requests)
    have s: S if H
    proof -
      from that have h: "online st" "distinct keys" "\<forall>key\<in>set keys. objects st key = None"
        by (simp_all add: H_def)
      from upload_each_ok [OF h(1) h(2) [unfolded keys_def] h(3) [unfolded keys_def], of publicUrl "[]"]
      obtain st' where l: "?loop = (Inr (map publicUrl keys), st')"
          and q: "requests st' = requests st @ map2 upload_call keys files"
          and i: "\<forall>i<length files. objects st' (keys ! i) = Some (stored (files ! i))"
        unfolding keys_def by auto
      from l have "out = (Inr (UploadedUrls ''Images uploaded successfully'' (map publicUrl keys)), st')"
        unfolding o by simp
      with q i show ?thesis by (simp add: S_def n_def keys_def)
    qed
    from k t s na nb(1,2) show ?thesis by blast
  qed
  qed
  then show ?thesis
    unfolding K_def T_def S_def H_def insert_iff empty_iff by blast
qed

lemma demo_keys:
  "keys_from 2 demo_clock demo_rnd 0 [png ''a.png'', png ''b.png'']
     = [''listings/2/170-k3-a.png'', ''listings/2/171-k3-b.png'']"
  by (simp add: storage_key_def demo_clock_def demo_rnd_def png_def decimal.simps digit_def)

theorem post_upload_contract_witness:
  "upload_kind (fst (post_upload demo_url 2 demo_clock demo_rnd demo_storage [])) = Some InvalidInput
   \<and> upload_kind (fst (post_upload demo_url 2 demo_clock demo_rnd demo_storage
        [png ''1'', png ''2'', png ''3'', png ''4'', png ''5'', png ''6''])) = Some InvalidInput
   \<and> upload_kind (fst (post_upload demo_url 2 demo_clock demo_rnd demo_storage [png ''a.png'', pdf]))
        = Some InvalidFileType
   \<and> upload_kind (fst (post_upload demo_url 2 demo_clock demo_rnd demo_storage [huge])) = Some TooLarge
   \<and> fst (post_upload demo_url 2 demo_clock demo_rnd demo_storage [png ''a.png'', png ''b.png''])
        = Inr (UploadedUrls ''Images uploaded successfully''
            [''https://s.co/object/public/house-images/listings/2/170-k3-a.png'',
             ''https://s.co/object/public/house-images/listings/2/171-k3-b.png''])
   \<and> requests (snd (post_upload demo_url 2 demo_clock demo_rnd demo_storage [png ''a.png'', png ''b.png'']))
        = [Upload ''listings/2/170-k3-a.png'' ''PNG'' ''image/png'' False,
           Upload ''listings/2/171-k3-b.png'' ''PNG'' ''image/png'' False]"
proof -
  let ?six = "[png ''1'', png ''2'', png ''3'', png ''4'', png ''5'', png ''6'']"
  let ?two = "[png ''a.png'', png ''b.png'']"
  have img: "is_image (png name)" "\<not> is_image pdf" "is_image huge" for name
    by (simp_all add: is_image_def startsWith_def png_def pdf_def huge_def)
  have big: "\<not> too_large (png name)" "\<not> too_large pdf" "too_large huge" for name
    by (simp_all add: too_large_def png_def pdf_def huge_def)
  note t0 = post_upload_contract [where files = "[]" and publicUrl = demo_url and uid = 2
      and clock = demo_clock and rnd = demo_rnd and st = demo_storage]
  note t6 = post_upload_contract [where files = ?six and publicUrl = demo_url and uid = 2
      and clock = demo_clock and rnd = demo_rnd and st = demo_storage]
  note tp = post_upload_contract [where files = "[png ''a.png'', pdf]" and publicUrl = demo_url
      and uid = 2 and clock = demo_clock and rnd = demo_rnd and st = demo_storage]
  note th = post_upload_contract [where files = "[huge]" and publicUrl = demo_url and uid = 2
      and clock = demo_clock and rnd = demo_rnd and st = demo_storage]
  note t2 = post_upload_contract [where files = ?two and publicUrl = demo_url and uid = 2
      and clock = demo_clock and rnd = demo_rnd and st = demo_storage]
  have a: "upload_kind (fst (post_upload demo_url 2 demo_clock demo_rnd demo_storage [])) = Some InvalidInput"
    using t0 by simp
  have b: "upload_kind (fst (post_upload demo_url 2 demo_clock demo_rnd demo_storage ?six)) = Some InvalidInput"
    using t6 img big by simp
  have c: "upload_kind (fst (post_upload demo_url 2 demo_clock demo_rnd demo_storage [png ''a.png'', pdf]))
        = Some InvalidFileType"
    using tp img big by simp
  have d: "upload_kind (fst (post_upload demo_url 2 demo_clock demo_rnd demo_storage [huge])) = Some TooLarge"
    using th img big by simp
  have free: "online demo_storage" "requests demo_storage = []"
      "objects demo_storage ''listings/2/170-k3-a.png'' = None"
      "objects demo_storage ''listings/2/171-k3-b.png'' = None"
    by (simp_all add: demo_storage_def)
  have hyp: "\<not> (length ?two = 0 \<or> 5 < length ?two)" "\<not> list_ex (\<lambda>f. \<not> is_image f) ?two"
      "\<not> list_ex too_large ?two"
    by (simp_all add: img big)
  have hyp2: "distinct (keys_from 2 demo_clock demo_rnd 0 ?two)"
      "\<forall>key\<in>set (keys_from 2 demo_clock demo_rnd 0 ?two). objects demo_storage key = None"
    unfolding demo_keys by (simp_all add: free)
  from t2 hyp hyp2 free(1)
  have "fst (post_upload demo_url 2 demo_clock demo_rnd demo_storage ?two)
        = Inr (UploadedUrls ''Images uploaded successfully''
            (map demo_url (keys_from 2 demo_clock demo_rnd 0 ?two)))
      \<and> requests (snd (post_upload demo_url 2 demo_clock demo_rnd demo_storage ?two))
        = requests demo_storage @ map2 upload_call (keys_from 2 demo_clock demo_rnd 0 ?two) ?two"
    by blast
  then have e: "fst (post_upload demo_url 2 demo_clock demo_rnd demo_storage ?two)
        = Inr (UploadedUrls ''Images uploaded successfully''
            [''https://s.co/object/public/house-images/listings/2/170-k3-a.png'',
             ''https://s.co/object/public/house-images/listings/2/171-k3-b.png''])
      \<and> requests (snd (post_upload demo_url 2 demo_clock demo_rnd demo_storage ?two))
        = [Upload ''listings/2/170-k3-a.png'' ''PNG'' ''image/png'' False,
           Upload ''listings/2/171-k3-b.png'' ''PNG'' ''image/png'' False]"
    unfolding demo_keys by (simp add: free demo_url_def upload_call_def png_def)
  from a b c d e show ?thesis by simp
qed

section \<open>Properties of the list queries\<close>


















end
